theory Spec2Isabelle
  imports Complex_Main "HOL-Library.Word"
begin

section \<open>Data model\<close>

text \<open>
  The development embeds \<^verbatim>\<open>src/quasarr/downloads/linkcrypters/al.py\<close>: the class
  \<^verbatim>\<open>CNL\<close>, \<^verbatim>\<open>decrypt_content\<close>, \<^verbatim>\<open>calculate_pixel_based_difference\<close> and
  \<^verbatim>\<open>solve_captcha\<close>.

  A Python \<^verbatim>\<open>str\<close> is a sequence of Unicode code points and is modelled as a list of
  natural numbers; \<^verbatim>\<open>bytes\<close> is a list of 8-bit words.
\<close>

type_synonym byte = "8 word"
type_synonym ustr = "nat list"

text \<open>
  JSON values as the challenge response carries them. Candidate identifiers are elements
  of a JSON array and stay opaque.
\<close>

datatype json =
    JNull
  | JBool bool
  | JNum int
  | JStr ustr
  | JList "json list"

text \<open>
  Python exceptions as values: the class, the message of the \<^verbatim>\<open>raise\<close> statement and,
  for an f-string, the interpolated values in order. \<open>OtherError\<close> stands for any
  exception class the module itself never raises (a library or a capability may).
\<close>

datatype error =
    KeyError string
  | ValueError string
  | ZeroDivisionError string
  | RuntimeError string "json list"
  | OtherError string

fun is_ValueError :: "error \<Rightarrow> bool" where
  "is_ValueError (ValueError m) = True"
| "is_ValueError e = False"

text \<open>
  The dictionaries \<^verbatim>\<open>decrypt_content\<close> and \<^verbatim>\<open>CNL\<close> read: an item with the keys
  \<^verbatim>\<open>"hoster"\<close> and \<^verbatim>\<open>"cnl"\<close>, the latter with the keys \<^verbatim>\<open>"jk"\<close> and
  \<^verbatim>\<open>"crypted"\<close>. A key may be absent (\<open>None\<close>).
\<close>

record cnl_info =
  jk :: "ustr option"
  crypted :: "ustr option"

record content_item =
  hoster :: "ustr option"
  cnl :: "cnl_info option"

text \<open>\<^verbatim>\<open>item.get("cnl", {})\<close>: the empty dictionary when the key is absent.\<close>

definition get_cnl :: "content_item \<Rightarrow> cnl_info" where
  "get_cnl item = (case cnl item of None \<Rightarrow> \<lparr>jk = None, crypted = None\<rparr> | Some c \<Rightarrow> c)"

text \<open>Python truthiness of an optional string: \<^verbatim>\<open>None\<close> and \<^verbatim>\<open>""\<close> are falsy.\<close>

fun truthy :: "ustr option \<Rightarrow> bool" where
  "truthy None = False"
| "truthy (Some s) = (s \<noteq> [])"

section \<open>KeyTransform and the CNL constructor\<close>

text \<open>
  Lines 42 to 47 of \<^verbatim>\<open>CNL.__init__\<close>:
  \<^verbatim>\<open>
        k_list = list(self.jk)
        if len(k_list) <= 16:
            raise ValueError("Invalid 'jk' string length; must be > 16 characters.")
        k_list[15], k_list[16] = k_list[16], k_list[15]
        self.fixed_key_hex = "".join(k_list)
  \<close>
  The tuple assignment reads both elements first and then stores them.
\<close>

definition key_transform :: "ustr \<Rightarrow> error + ustr" where
  "key_transform s =
     (let k_list = s in
      if length k_list \<le> 16
      then Inl (ValueError ''Invalid jk string length; must be > 16 characters.'')
      else Inr ((k_list[15 := k_list ! 16])[16 := k_list ! 15]))"

record cnl_obj =
  self_jk :: ustr
  self_crypted_blob :: ustr
  fixed_key_hex :: ustr

text \<open>
  \<^verbatim>\<open>CNL.__init__\<close>: both fields must be present and non-empty, then the key is
  transformed.
\<close>

definition CNL_init :: "content_item \<Rightarrow> error + cnl_obj" where
  "CNL_init chosen_data =
     (let cnl_info = get_cnl chosen_data in
      if \<not> truthy (jk cnl_info) \<or> \<not> truthy (crypted cnl_info)
      then Inl (KeyError ''Missing jk or crypted fields in JSON.'')
      else (case key_transform (the (jk cnl_info)) of
              Inl e \<Rightarrow> Inl e
            | Inr k \<Rightarrow> Inr \<lparr>self_jk = the (jk cnl_info),
                            self_crypted_blob = the (crypted cnl_info),
                            fixed_key_hex = k\<rparr>))"

section \<open>ContainerDecoder: the decryption pipeline of CNL\<close>

text \<open>
  The three library calls of \<^verbatim>\<open>_aes_decrypt\<close> are parameters of the model:
  \<^verbatim>\<open>base64.b64decode\<close>, \<^verbatim>\<open>bytes.fromhex\<close> and \<^verbatim>\<open>AES.new(key, AES.MODE_CBC, iv)\<close>,
  whose result is a cipher object with a \<^verbatim>\<open>decrypt\<close> method. Each of them may raise.
\<close>

record crypto_lib =
  b64decode :: "ustr \<Rightarrow> error + byte list"
  bytes_fromhex :: "ustr \<Rightarrow> error + byte list"
  AES_new :: "byte list \<Rightarrow> byte list \<Rightarrow> error + (byte list \<Rightarrow> error + byte list)"

text \<open>
  \<^verbatim>\<open>CNL._aes_decrypt\<close>. The decoding of the payload, of the key and the decryption are
  wrapped in \<^verbatim>\<open>try\<close> blocks that re-raise a \<^verbatim>\<open>ValueError\<close>; \<^verbatim>\<open>AES.new\<close> is not, so
  its exception passes through as it is.
\<close>

definition aes_decrypt :: "crypto_lib \<Rightarrow> ustr \<Rightarrow> ustr \<Rightarrow> error + byte list" where
  "aes_decrypt lib data_b64 key_hex =
     (case b64decode lib data_b64 of
        Inl e \<Rightarrow> Inl (ValueError ''Failed to decode base64 data'')
      | Inr encrypted_data \<Rightarrow>
          (case bytes_fromhex lib key_hex of
             Inl e \<Rightarrow> Inl (ValueError ''Failed to convert key to bytes (invalid hex)'')
           | Inr key_bytes \<Rightarrow>
               (case AES_new lib key_bytes key_bytes of
                  Inl e \<Rightarrow> Inl e
                | Inr cipher \<Rightarrow>
                    (case cipher encrypted_data of
                       Inl e \<Rightarrow> Inl (ValueError ''AES decryption failed'')
                     | Inr decrypted \<Rightarrow> Inr decrypted))))"

text \<open>
  \<^verbatim>\<open>bytes.replace(old, new)\<close> for a pattern \<open>old\<close> of one byte, the only way the module
  calls it: every occurrence of the byte is replaced, from left to right.
\<close>

definition bytes_replace1 :: "byte \<Rightarrow> byte list \<Rightarrow> byte list \<Rightarrow> byte list" where
  "bytes_replace1 old new s = concat (map (\<lambda>b. if b = old then new else [b]) s)"

text \<open>
  \<^verbatim>\<open>bytes.decode("utf-8")\<close> with strict error handling, on the values of the bytes: the
  well-formed sequences of the Unicode standard (no overlong form, no surrogate,
  nothing above U+10FFFF). \<open>None\<close> is \<^verbatim>\<open>UnicodeDecodeError\<close>.
\<close>

definition utf8_cont :: "nat \<Rightarrow> bool" where
  "utf8_cont b = (128 \<le> b \<and> b < 192)"

fun utf8_dec :: "nat list \<Rightarrow> ustr option" where
  "utf8_dec [] = Some []"
| "utf8_dec (b0 # bs) =
     (if b0 < 128 then map_option ((#) b0) (utf8_dec bs)
      else if 194 \<le> b0 \<and> b0 < 224 then
        (case bs of
           b1 # r \<Rightarrow>
             if utf8_cont b1
             then map_option ((#) ((b0 - 192) * 64 + (b1 - 128))) (utf8_dec r)
             else None
         | _ \<Rightarrow> None)
      else if 224 \<le> b0 \<and> b0 < 240 then
        (case bs of
           b1 # b2 # r \<Rightarrow>
             if utf8_cont b1 \<and> utf8_cont b2
                \<and> (if b0 = 224 then 160 \<le> b1 else True)
                \<and> (if b0 = 237 then b1 < 160 else True)
             then map_option
                    ((#) ((b0 - 224) * 4096 + (b1 - 128) * 64 + (b2 - 128))) (utf8_dec r)
             else None
         | _ \<Rightarrow> None)
      else if 240 \<le> b0 \<and> b0 < 245 then
        (case bs of
           b1 # b2 # b3 # r \<Rightarrow>
             if utf8_cont b1 \<and> utf8_cont b2 \<and> utf8_cont b3
                \<and> (if b0 = 240 then 144 \<le> b1 else True)
                \<and> (if b0 = 244 then b1 < 144 else True)
             then map_option
                    ((#) ((b0 - 240) * 262144 + (b1 - 128) * 4096 + (b2 - 128) * 64
                          + (b3 - 128))) (utf8_dec r)
             else None
         | _ \<Rightarrow> None)
      else None)"

definition utf8_decode :: "byte list \<Rightarrow> ustr option" where
  "utf8_decode bs = utf8_dec (map unat bs)"

text \<open>
  The line boundaries of \<^verbatim>\<open>str.splitlines\<close>: LF, VT, FF, CR, FS, GS, RS, NEL, LS and
  PS; a CR directly followed by LF is one boundary.
\<close>

definition is_linebreak :: "nat \<Rightarrow> bool" where
  "is_linebreak c = (c \<in> {10, 11, 12, 13, 28, 29, 30, 133, 8232, 8233})"

text \<open>
  \<^verbatim>\<open>str.splitlines()\<close> (without \<^verbatim>\<open>keepends\<close>): scan to the next line boundary, emit the
  line before it, skip the boundary; a last line without a boundary is emitted when it
  is not empty. \<open>cur\<close> is the line read so far.
\<close>

fun splitlines_from :: "ustr \<Rightarrow> ustr \<Rightarrow> ustr list" where
  "splitlines_from cur [] = (if cur = [] then [] else [cur])"
| "splitlines_from cur (c # cs) =
     (if c = 13 then
        (case cs of
           [] \<Rightarrow> [cur]
         | d # r \<Rightarrow> if d = 10 then cur # splitlines_from [] r
                    else cur # splitlines_from [] (d # r))
      else if is_linebreak c then cur # splitlines_from [] cs
      else splitlines_from (cur @ [c]) cs)"

definition splitlines :: "ustr \<Rightarrow> ustr list" where
  "splitlines s = splitlines_from [] s"

text \<open>
  The characters \<^verbatim>\<open>str.strip()\<close> removes (those with \<^verbatim>\<open>str.isspace\<close>), and
  \<^verbatim>\<open>str.strip()\<close> itself.
\<close>

definition py_isspace :: "nat \<Rightarrow> bool" where
  "py_isspace c =
     ((9 \<le> c \<and> c \<le> 13) \<or> (28 \<le> c \<and> c \<le> 32) \<or> c = 133 \<or> c = 160 \<or> c = 5760
      \<or> (8192 \<le> c \<and> c \<le> 8202) \<or> c = 8232 \<or> c = 8233 \<or> c = 8239 \<or> c = 8287
      \<or> c = 12288)"

definition py_strip :: "ustr \<Rightarrow> ustr" where
  "py_strip s = rev (dropWhile py_isspace (rev (dropWhile py_isspace s)))"

text \<open>
  Lines 83 to 92 of \<^verbatim>\<open>CNL.decrypt\<close>, on the decrypted buffer:
  \<^verbatim>\<open>
        try:
            cleaned = raw_plain.replace(b"\x00", b"").replace(b"\x08", b"")
            text = cleaned.decode("utf-8")
        except Exception as e:
            raise ValueError("Failed to decode decrypted data to UTF-8") from e
        urls = [line for line in text.splitlines() if line.strip()]
        return urls
  \<close>
\<close>

definition decode_lines :: "byte list \<Rightarrow> error + ustr list" where
  "decode_lines raw_plain =
     (let cleaned = bytes_replace1 8 [] (bytes_replace1 0 [] raw_plain) in
      case utf8_decode cleaned of
        None \<Rightarrow> Inl (ValueError ''Failed to decode decrypted data to UTF-8'')
      | Some txt \<Rightarrow> Inr (filter (\<lambda>line. py_strip line \<noteq> []) (splitlines txt)))"

text \<open>\<^verbatim>\<open>CNL.decrypt\<close>: the decryption, then the post-processing of the buffer.\<close>

definition CNL_decrypt :: "crypto_lib \<Rightarrow> cnl_obj \<Rightarrow> error + ustr list" where
  "CNL_decrypt lib self =
     (case aes_decrypt lib (self_crypted_blob self) (fixed_key_hex self) of
        Inl e \<Rightarrow> Inl e
      | Inr raw_plain \<Rightarrow> decode_lines raw_plain)"

subsection \<open>The post-processing as the specification words it\<close>

text \<open>
  The specification's step 4 to 6, written from its words: remove every byte 0x00 and
  0x08, decode as UTF-8, split on LF or CRLF, drop the lines that are empty or consist of
  whitespace only, keep the order. Splitting on CRLF or LF is splitting at every LF and
  dropping one CR that ends a piece.
\<close>

primrec split_on :: "nat \<Rightarrow> ustr \<Rightarrow> ustr list" where
  "split_on s [] = [[]]"
| "split_on s (c # cs) =
     (if c = s then [] # split_on s cs
      else (c # hd (split_on s cs)) # tl (split_on s cs))"

definition strip_cr :: "ustr \<Rightarrow> ustr" where
  "strip_cr l = (if l \<noteq> [] \<and> last l = 13 then butlast l else l)"

definition spec_split_lines :: "ustr \<Rightarrow> ustr list" where
  "spec_split_lines t = map strip_cr (split_on 10 t)"

definition spec_decode_lines :: "byte list \<Rightarrow> error + ustr list" where
  "spec_decode_lines raw =
     (case utf8_decode (filter (\<lambda>b. b \<noteq> 0 \<and> b \<noteq> 8) raw) of
        None \<Rightarrow> Inl (ValueError ''Failed to decode decrypted data to UTF-8'')
      | Some t \<Rightarrow> Inr (filter (\<lambda>l. \<not> list_all py_isspace l) (spec_split_lines t)))"

text \<open>
  A text whose only line boundaries are LF and CRLF: no CR without an LF after it, and
  none of VT, FF, FS, GS, RS, NEL, LS, PS.
\<close>

fun lf_crlf_only :: "ustr \<Rightarrow> bool" where
  "lf_crlf_only [] = True"
| "lf_crlf_only (c # cs) =
     (if c = 13 then (case cs of [] \<Rightarrow> False | d # r \<Rightarrow> d = 10 \<and> lf_crlf_only cs)
      else if is_linebreak c then c = 10 \<and> lf_crlf_only cs
      else lf_crlf_only cs)"

section \<open>BatchDecryptor: decrypt_content\<close>

text \<open>
  The calls of \<^verbatim>\<open>info\<close> and \<^verbatim>\<open>debug\<close> are the diagnostics of \<^verbatim>\<open>decrypt_content\<close>. A
  call is recorded as an event that holds the values its f-string interpolates; the
  log is the list of events in the order of the calls.
\<close>

datatype log_event =
    Info_fallback ustr
  | Info_skip nat ustr
  | Debug_decrypted nat ustr nat
  | Info_error nat ustr error

text \<open>
  \<^verbatim>\<open>sub in s\<close> on strings: \<open>sub\<close> occurs in \<open>s\<close> as a contiguous run of code points.
\<close>

fun py_in :: "ustr \<Rightarrow> ustr \<Rightarrow> bool" where
  "py_in sub [] = (sub = [])"
| "py_in sub (c # cs) = (take (length sub) (c # cs) = sub \<or> py_in sub cs)"

text \<open>\<^verbatim>\<open>item.get("hoster", "")\<close> and \<^verbatim>\<open>item.get("hoster", "<unknown>")\<close>.\<close>

definition hoster_or_empty :: "content_item \<Rightarrow> ustr" where
  "hoster_or_empty item = (case hoster item of None \<Rightarrow> [] | Some h \<Rightarrow> h)"

definition hoster_label :: "content_item \<Rightarrow> ustr" where
  "hoster_label item =
     (case hoster item of None \<Rightarrow> map of_char ''<unknown>'' | Some h \<Rightarrow> h)"

text \<open>
  Lines 103 to 113 of \<^verbatim>\<open>decrypt_content\<close>, the choice of the items to process:
  \<^verbatim>\<open>
    if mirror:
        filtered = [item for item in content_items if mirror in item.get("hoster", "")]
    else:
        filtered = []
    if mirror and not filtered:
        info(f"No items found for mirror='{mirror}'. Falling back to all content_items.")
        filtered = content_items.copy()
    if not mirror:
        filtered = content_items.copy()
  \<close>
  The result is the list \<^verbatim>\<open>filtered\<close> and the events logged.
\<close>

definition select_items ::
  "content_item list \<Rightarrow> ustr option \<Rightarrow> content_item list \<times> log_event list" where
  "select_items content_items mirror =
     (let filtered1 =
            (if truthy mirror
             then filter (\<lambda>item. py_in (the mirror) (hoster_or_empty item)) content_items
             else []);
          events = (if truthy mirror \<and> filtered1 = [] then [Info_fallback (the mirror)] else []);
          filtered2 = (if truthy mirror \<and> filtered1 = [] then content_items else filtered1);
          filtered3 = (if \<not> truthy mirror then content_items else filtered2)
      in (filtered3, events))"

text \<open>The body of the \<^verbatim>\<open>try\<close> block: \<^verbatim>\<open>CNL(item).decrypt()\<close>.\<close>

definition try_decrypt :: "crypto_lib \<Rightarrow> content_item \<Rightarrow> error + ustr list" where
  "try_decrypt lib item =
     (case CNL_init item of
        Inl e \<Rightarrow> Inl e
      | Inr decryptor \<Rightarrow> CNL_decrypt lib decryptor)"

text \<open>
  Lines 115 to 136, the loop over \<^verbatim>\<open>enumerate(filtered)\<close>, started at index \<open>idx\<close> with
  the links and the log collected so far. \<^verbatim>\<open>except Exception\<close> catches every error
  value of the model.
\<close>

fun decrypt_loop ::
  "crypto_lib \<Rightarrow> nat \<Rightarrow> content_item list \<Rightarrow> ustr list \<Rightarrow> log_event list
   \<Rightarrow> ustr list \<times> log_event list" where
  "decrypt_loop lib idx [] decrypted_links events = (decrypted_links, events)"
| "decrypt_loop lib idx (item # rest) decrypted_links events =
     (let hoster_name = hoster_label item;
          cnl_info = get_cnl item;
          jnk = jk cnl_info;
          crypted_blob = crypted cnl_info
      in if \<not> truthy jnk \<or> \<not> truthy crypted_blob
         then decrypt_loop lib (Suc idx) rest decrypted_links
                (events @ [Info_skip idx hoster_name])
         else (case try_decrypt lib item of
                 Inr urls \<Rightarrow>
                   decrypt_loop lib (Suc idx) rest (decrypted_links @ urls)
                     (events @ [Debug_decrypted idx hoster_name (length urls)])
               | Inl e \<Rightarrow>
                   decrypt_loop lib (Suc idx) rest decrypted_links
                     (events @ [Info_error idx hoster_name e])))"

definition decrypt_content ::
  "crypto_lib \<Rightarrow> content_item list \<Rightarrow> ustr option \<Rightarrow> ustr list \<times> log_event list" where
  "decrypt_content lib content_items mirror =
     (case select_items content_items mirror of
        (filtered, events) \<Rightarrow> decrypt_loop lib 0 filtered [] events)"



subsection \<open>An example library and example items\<close>



section \<open>ImageDifferenceEngine: calculate_pixel_based_difference\<close>

text \<open>
  A normalised image is a Pillow image of mode RGB: its size and, for every column
  \<open>x < xsize\<close> and row \<open>y < ysize\<close>, the three 8-bit channels of the pixel. Positions
  outside the size are never read.
\<close>

type_synonym rgb = "byte \<times> byte \<times> byte"

record image =
  xsize :: nat
  ysize :: nat
  getpixel :: "nat \<Rightarrow> nat \<Rightarrow> rgb"

text \<open>
  \<^verbatim>\<open>ImageChops.difference(img1, img2)\<close> of Pillow: the result has the smaller width and
  the smaller height of the two images, and each channel of each pixel is the absolute
  value of the difference of the two channels. \<^verbatim>\<open>.convert("RGB")\<close> leaves an RGB image
  as it is.
\<close>

definition chop_abs :: "byte \<Rightarrow> byte \<Rightarrow> byte" where
  "chop_abs a b = (if a \<le> b then b - a else a - b)"

definition chop_rgb :: "rgb \<Rightarrow> rgb \<Rightarrow> rgb" where
  "chop_rgb p q =
     (case p of (r1, g1, b1) \<Rightarrow>
        case q of (r2, g2, b2) \<Rightarrow> (chop_abs r1 r2, chop_abs g1 g2, chop_abs b1 b2))"

definition ImageChops_difference :: "image \<Rightarrow> image \<Rightarrow> image" where
  "ImageChops_difference img1 img2 =
     \<lparr>xsize = min (xsize img1) (xsize img2),
      ysize = min (ysize img1) (ysize img2),
      getpixel = (\<lambda>x y. chop_rgb (getpixel img1 x y) (getpixel img2 x y))\<rparr>"

text \<open>
  \<^verbatim>\<open>Image.histogram()\<close> of an RGB image: 768 counts, for each value 0 to 255 the number of
  pixels whose red channel has it, then the same for green and for blue.
\<close>

definition pixels :: "image \<Rightarrow> rgb list" where
  "pixels im = concat (map (\<lambda>y. map (\<lambda>x. getpixel im x y) [0..<xsize im]) [0..<ysize im])"

definition chan_R :: "rgb \<Rightarrow> nat" where "chan_R p = (case p of (r, g, b) \<Rightarrow> unat r)"
definition chan_G :: "rgb \<Rightarrow> nat" where "chan_G p = (case p of (r, g, b) \<Rightarrow> unat g)"
definition chan_B :: "rgb \<Rightarrow> nat" where "chan_B p = (case p of (r, g, b) \<Rightarrow> unat b)"

definition histogram :: "image \<Rightarrow> nat list" where
  "histogram im =
     map (\<lambda>v. length (filter (\<lambda>p. chan_R p = v) (pixels im))) [0..<256]
     @ map (\<lambda>v. length (filter (\<lambda>p. chan_G p = v) (pixels im))) [0..<256]
     @ map (\<lambda>v. length (filter (\<lambda>p. chan_B p = v) (pixels im))) [0..<256]"

text \<open>
  \<^verbatim>\<open>calculate_pixel_based_difference\<close>. Python's \<^verbatim>\<open>/\<close> on two integers raises
  \<^verbatim>\<open>ZeroDivisionError\<close> when the divisor is 0 and otherwise returns the double nearest
  to the quotient. Doubles are not modelled: the division of a non-zero divisor is the
  parameter \<open>tdiv\<close>, and the results live in a type \<open>'s\<close> of scores.
\<close>

definition calculate_pixel_based_difference ::
  "(int \<Rightarrow> int \<Rightarrow> 's) \<Rightarrow> image \<Rightarrow> image \<Rightarrow> error + 's" where
  "calculate_pixel_based_difference tdiv img1 img2 =
     (let diff = ImageChops_difference img1 img2;
          w = int (xsize diff);
          h = int (ysize diff);
          hist = histogram diff;
          zero_R = int (hist ! 0);
          zero_G = int (hist ! 256);
          zero_B = int (hist ! 512);
          total_elements = w * h * 3;
          zero_elements = zero_R + zero_G + zero_B;
          non_zero = total_elements - zero_elements
      in if total_elements = 0 then Inl (ZeroDivisionError ''division by zero'')
         else Inr (tdiv (non_zero * 100) total_elements))"

text \<open>The exact quotient, to state bounds on the result.\<close>

definition exact_div :: "int \<Rightarrow> int \<Rightarrow> rat" where
  "exact_div a b = of_int a / of_int b"

section \<open>OutlierSelector: the scores and the choice in solve_captcha\<close>

text \<open>
  Lines 206 to 213 of \<^verbatim>\<open>solve_captcha\<close>. The inner loop adds, for the image at index
  \<open>idx_i\<close>, the differences to the images at every other index, in order, starting from
  \<^verbatim>\<open>tot = 0.0\<close>; an exception of the difference ends the computation. \<open>+\<close> on scores
  stands for the addition of doubles.
\<close>

fun row_total ::
  "(int \<Rightarrow> int \<Rightarrow> 's::{zero,plus}) \<Rightarrow> nat \<Rightarrow> image \<Rightarrow> nat \<Rightarrow> (json \<times> image) list \<Rightarrow> 's
   \<Rightarrow> error + 's" where
  "row_total tdiv idx_i img_i idx_j [] tot = Inr tot"
| "row_total tdiv idx_i img_i idx_j ((cid_j, img_j) # rest) tot =
     (if idx_i = idx_j then row_total tdiv idx_i img_i (Suc idx_j) rest tot
      else (case calculate_pixel_based_difference tdiv img_i img_j of
              Inl e \<Rightarrow> Inl e
            | Inr d \<Rightarrow> row_total tdiv idx_i img_i (Suc idx_j) rest (tot + d)))"

fun diffs_loop ::
  "(int \<Rightarrow> int \<Rightarrow> 's::{zero,plus}) \<Rightarrow> (json \<times> image) list \<Rightarrow> nat \<Rightarrow> (json \<times> image) list
   \<Rightarrow> (json \<times> 's) list \<Rightarrow> error + (json \<times> 's) list" where
  "diffs_loop tdiv pil_images idx_i [] diffs_pil = Inr diffs_pil"
| "diffs_loop tdiv pil_images idx_i ((cid_i, img_i) # rest) diffs_pil =
     (case row_total tdiv idx_i img_i 0 pil_images 0 of
        Inl e \<Rightarrow> Inl e
      | Inr tot \<Rightarrow> diffs_loop tdiv pil_images (Suc idx_i) rest (diffs_pil @ [(cid_i, tot)]))"

text \<open>
  \<^verbatim>\<open>max(iterable, key=...)\<close>: the first element is the candidate, and a later element
  replaces it only when its key is greater. On an empty sequence it raises.
\<close>

fun max_from :: "('a \<Rightarrow> 'k::linorder) \<Rightarrow> 'a \<Rightarrow> 'a list \<Rightarrow> 'a" where
  "max_from key best [] = best"
| "max_from key best (x # xs) =
     (if key best < key x then max_from key x xs else max_from key best xs)"

definition py_max :: "('a \<Rightarrow> 'k::linorder) \<Rightarrow> 'a list \<Rightarrow> error + 'a" where
  "py_max key xs =
     (case xs of
        [] \<Rightarrow> Inl (ValueError ''max() arg is an empty sequence'')
      | x # rest \<Rightarrow> Inr (max_from key x rest))"

text \<open>Lines 206 to 215: the scores of all candidates, then the choice.\<close>

definition select_outlier ::
  "(int \<Rightarrow> int \<Rightarrow> 's::{zero,plus,linorder}) \<Rightarrow> (json \<times> image) list \<Rightarrow> error + json \<times> 's" where
  "select_outlier tdiv pil_images =
     (case diffs_loop tdiv pil_images 0 pil_images [] of
        Inl e \<Rightarrow> Inl e
      | Inr diffs_pil \<Rightarrow> py_max snd diffs_pil)"




text \<open>An image of one pixel, for concrete runs.\<close>

definition single_pixel :: "rgb \<Rightarrow> image" where
  "single_pixel p = \<lparr>xsize = 1, ysize = 1, getpixel = (\<lambda>x y. p)\<rparr>"

section \<open>CaptchaResolver: solve_captcha\<close>

text \<open>
  What \<^verbatim>\<open>solve_captcha\<close> exchanges with its capabilities. A request is the method, the
  target URL (the base URL and, for an image, the candidate whose hash the query string
  carries) and the posted data; \<^verbatim>\<open>fetch_via_flaresolverr\<close> returns a dictionary read
  at \<^verbatim>\<open>"json"\<close> (the read may raise) and at \<^verbatim>\<open>"text"\<close>, \<^verbatim>\<open>fetch_via_requests_session\<close> a
  response with a status code and a body.
\<close>

datatype request =
    Post_challenge ustr
  | Get_image ustr json
  | Post_choice ustr json

record fs_result =
  result_json :: "error + json"
  result_text :: ustr

record response =
  status_code :: int
  content :: "byte list"

text \<open>
  The environment of a resolution. \<open>'w\<close> is the state of the world the capabilities
  act on (\<^verbatim>\<open>shared_state\<close>, the network, the log); every capability call takes the world
  and returns the new one, and may raise. \<open>'p\<close> is a Pillow image of any mode as
  \<^verbatim>\<open>Image.open\<close> returns it; the conversions of Pillow are parameters.
  \<open>info_captcha\<close> is the call of \<^verbatim>\<open>info\<close> at line 217 with the identifier, the score
  and the number of images its message is computed from.
\<close>

record ('w, 'p, 's) env =
  hostnames :: "'w \<Rightarrow> ustr \<Rightarrow> ustr option"
  fetch_via_flaresolverr :: "request \<Rightarrow> 'w \<Rightarrow> (error + fs_result) \<times> 'w"
  fetch_via_requests_session :: "request \<Rightarrow> 'w \<Rightarrow> (error + response) \<times> 'w"
  info_captcha :: "json \<Rightarrow> 's \<Rightarrow> nat \<Rightarrow> 'w \<Rightarrow> 'w"
  Image_open :: "byte list \<Rightarrow> error + 'p"
  mode :: "'p \<Rightarrow> string"
  has_transparency :: "'p \<Rightarrow> bool"
  convert_RGBA :: "'p \<Rightarrow> error + 'p"
  paste_on_white :: "'p \<Rightarrow> error + image"
  convert_RGB :: "'p \<Rightarrow> error + image"

text \<open>\<^verbatim>\<open>f"https://www.{al}/files/captcha"\<close>; an absent host name prints as \<^verbatim>\<open>None\<close>.\<close>

definition captcha_base_of :: "ustr option \<Rightarrow> ustr" where
  "captcha_base_of al =
     map of_char ''https://www.''
     @ (case al of None \<Rightarrow> map of_char ''None'' | Some h \<Rightarrow> h)
     @ map of_char ''/files/captcha''"

text \<open>
  Lines 176 to 184, the loop that downloads the images, from the candidates left, the
  images collected so far and the world:
  \<^verbatim>\<open>
    for c in raw_ids:
        img_url = f"{captcha_base}?cid=0&hash={c}"
        r_img = fetch_via_requests_session(shared_state, method="GET", ...)
        if r_img.status_code != 200:
            raise RuntimeError(f"Failed to download captcha image {c} (HTTP ...)")
        elif not r_img.content:
            raise RuntimeError(f"Captcha image {c} is empty or invalid.")
        images.append((c, r_img.content))
  \<close>
\<close>

fun fetch_images ::
  "('w, 'p, 's) env \<Rightarrow> ustr \<Rightarrow> json list \<Rightarrow> (json \<times> byte list) list \<Rightarrow> 'w
   \<Rightarrow> (error + (json \<times> byte list) list) \<times> 'w" where
  "fetch_images env captcha_base [] images w = (Inr images, w)"
| "fetch_images env captcha_base (c # cs) images w =
     (case fetch_via_requests_session env (Get_image captcha_base c) w of
        (Inl e, w') \<Rightarrow> (Inl e, w')
      | (Inr r_img, w') \<Rightarrow>
          if status_code r_img \<noteq> 200
          then (Inl (RuntimeError ''Failed to download captcha image {c} (HTTP {status_code})''
                       [c, JNum (status_code r_img)]), w')
          else if content r_img = []
          then (Inl (RuntimeError ''Captcha image {c} is empty or invalid.'' [c]), w')
          else fetch_images env captcha_base cs (images @ [(c, content r_img)]) w')"

text \<open>Lines 187 to 204, the normalisation of one image and the loop over the images.\<close>

definition normalize_image :: "('w, 'p, 's) env \<Rightarrow> byte list \<Rightarrow> error + image" where
  "normalize_image env raw_bytes =
     (case Image_open env raw_bytes of
        Inl e \<Rightarrow> Inl e
      | Inr img \<Rightarrow>
          (case (if mode env img = ''P'' \<and> has_transparency env img
                 then convert_RGBA env img else Inr img) of
             Inl e \<Rightarrow> Inl e
           | Inr img2 \<Rightarrow>
               if mode env img2 = ''RGBA'' then paste_on_white env img2
               else convert_RGB env img2))"

fun normalize_all ::
  "('w, 'p, 's) env \<Rightarrow> (json \<times> byte list) list \<Rightarrow> (json \<times> image) list
   \<Rightarrow> error + (json \<times> image) list" where
  "normalize_all env [] pil_images = Inr pil_images"
| "normalize_all env ((cid, raw_bytes) # rest) pil_images =
     (case normalize_image env raw_bytes of
        Inl e \<Rightarrow> Inl e
      | Inr img \<Rightarrow> normalize_all env rest (pil_images @ [(cid, img)]))"

text \<open>
  Lines 156 to 215 of \<^verbatim>\<open>solve_captcha\<close>: the challenge, the images, the scores and the
  choice. The result is the base URL, the chosen identifier, its score and the number
  of images.
\<close>

definition select_captcha ::
  "('w, 'p, 's::{zero,plus,linorder}) env \<Rightarrow> (int \<Rightarrow> int \<Rightarrow> 's) \<Rightarrow> ustr \<Rightarrow> 'w
   \<Rightarrow> (error + ustr \<times> json \<times> 's \<times> nat) \<times> 'w" where
  "select_captcha env tdiv hostname shared_state =
     (let al = hostnames env shared_state hostname;
          captcha_base = captcha_base_of al
      in case fetch_via_flaresolverr env (Post_challenge captcha_base) shared_state of
           (Inl e, w1) \<Rightarrow> (Inl e, w1)
         | (Inr result, w1) \<Rightarrow>
             (case result_json result of
                Inl e \<Rightarrow>
                  if is_ValueError e
                  then (Inl (RuntimeError ''Cannot decode captcha IDs: {text}''
                               [JStr (result_text result)]), w1)
                  else (Inl e, w1)
              | Inr raw_ids \<Rightarrow>
                  (case raw_ids of
                     JList ids \<Rightarrow>
                       if length ids < 2
                       then (Inl (RuntimeError ''Unexpected captcha IDs format.'' []), w1)
                       else
                         (case fetch_images env captcha_base ids [] w1 of
                            (Inl e, w2) \<Rightarrow> (Inl e, w2)
                          | (Inr images, w2) \<Rightarrow>
                              (case normalize_all env images [] of
                                 Inl e \<Rightarrow> (Inl e, w2)
                               | Inr pil_images \<Rightarrow>
                                   (case select_outlier tdiv pil_images of
                                      Inl e \<Rightarrow> (Inl e, w2)
                                    | Inr (identified_captcha_image, cum_pct_pil) \<Rightarrow>
                                        (Inr (captcha_base, identified_captcha_image,
                                              cum_pct_pil, length images), w2))))
                   | _ \<Rightarrow> (Inl (RuntimeError ''Unexpected captcha IDs format.'' []), w1))))"

text \<open>
  The dictionary \<^verbatim>\<open>solve_captcha\<close> returns, with its two keys, and lines 216 to 230: the
  log line, the submission of the choice and the result.
\<close>

record captcha_result =
  response_text :: ustr
  captcha_id :: json

definition solve_captcha ::
  "('w, 'p, 's::{zero,plus,linorder}) env \<Rightarrow> (int \<Rightarrow> int \<Rightarrow> 's) \<Rightarrow> ustr \<Rightarrow> 'w
   \<Rightarrow> (error + captcha_result) \<times> 'w" where
  "solve_captcha env tdiv hostname shared_state =
     (case select_captcha env tdiv hostname shared_state of
        (Inl e, w2) \<Rightarrow> (Inl e, w2)
      | (Inr (captcha_base, identified_captcha_image, cum_pct_pil, n), w2) \<Rightarrow>
          (case fetch_via_flaresolverr env (Post_choice captcha_base identified_captcha_image)
                  (info_captcha env identified_captcha_image cum_pct_pil n w2) of
             (Inl e, w3) \<Rightarrow> (Inl e, w3)
           | (Inr result, w3) \<Rightarrow>
               (Inr \<lparr>response_text = result_text result,
                     captcha_id = identified_captcha_image\<rparr>, w3)))"

subsection \<open>An example environment\<close>

text \<open>
  A stand-in for the capabilities, to run a resolution on concrete data. The world is the
  list of the requests made so far. The challenge lists the candidates 1, 2 and 3, the
  image request of a candidate is answered as \<open>serve\<close> says, and a body of three bytes
  opens as the RGB image of that one pixel.
\<close>

definition example_env :: "(json \<Rightarrow> response) \<Rightarrow> (request list, byte list, rat) env" where
  "example_env serve =
     \<lparr>hostnames = (\<lambda>w h. Some [97, 108]),
      fetch_via_flaresolverr =
        (\<lambda>req w. (Inr \<lparr>result_json = Inr (JList [JNum 1, JNum 2, JNum 3]),
                         result_text = [79, 75]\<rparr>, w @ [req])),
      fetch_via_requests_session =
        (\<lambda>req w. (case req of
                      Get_image b c \<Rightarrow> Inr (serve c)
                    | _ \<Rightarrow> Inl (OtherError ''unexpected request''), w @ [req])),
      info_captcha = (\<lambda>c s n w. w),
      Image_open = (\<lambda>bs. Inr bs),
      mode = (\<lambda>p. ''RGB''),
      has_transparency = (\<lambda>p. False),
      convert_RGBA = (\<lambda>p. Inr p),
      paste_on_white = (\<lambda>p. Inl (OtherError ''not an RGBA image'')),
      convert_RGB =
        (\<lambda>p. case p of
                [r, g, b] \<Rightarrow> Inr (single_pixel (r, g, b))
              | _ \<Rightarrow> Inl (OtherError ''cannot identify image file''))\<rparr>"

section \<open>Properties of KeyTransform\<close>

lemma key_transform_length:
  "key_transform x = Inr y \<Longrightarrow> length y = length x"
  by (auto simp: key_transform_def Let_def split: if_splits)

text \<open>
  Claim C4. KeyTransform is self-inverse: on every string longer than 16 characters the
  transform succeeds, and applying it to its own result gives the original string back.
\<close>

theorem key_transform_self_inverse:
  "16 < length x \<Longrightarrow> \<exists>y. key_transform x = Inr y \<and> key_transform y = Inr x"
proof -
  assume len: "16 < length x"
  define y where "y = (x[15 := x ! 16])[16 := x ! 15]"
  have fwd: "key_transform x = Inr y"
    using len by (simp add: key_transform_def y_def)
  have ylen: "length y = length x"
    by (simp add: y_def)
  have "(y[15 := y ! 16])[16 := y ! 15] = x"
    using len by (auto simp: y_def list_eq_iff_nth_eq nth_list_update)
  then have "key_transform y = Inr x"
    using len ylen by (simp add: key_transform_def)
  with fwd show ?thesis by blast
qed

theorem key_transform_self_inverse_witness:
  "16 < length [0, 1, 2, 3, 4, 5, 6, 7, 8, 9, 10, 11, 12, 13, 14, 15, 16, 17 :: nat] \<and>
   (\<exists>y. key_transform [0, 1, 2, 3, 4, 5, 6, 7, 8, 9, 10, 11, 12, 13, 14, 15, 16, 17] = Inr y \<and>
        key_transform y = Inr [0, 1, 2, 3, 4, 5, 6, 7, 8, 9, 10, 11, 12, 13, 14, 15, 16, 17])"
  using key_transform_self_inverse
    [of "[0, 1, 2, 3, 4, 5, 6, 7, 8, 9, 10, 11, 12, 13, 14, 15, 16, 17]"]
  by simp

section \<open>Properties of ContainerDecoder\<close>

lemma bytes_replace1_empty: "bytes_replace1 old [] s = filter (\<lambda>b. b \<noteq> old) s"
  by (induction s) (simp_all add: bytes_replace1_def)

lemma cleaned_filter:
  "bytes_replace1 8 [] (bytes_replace1 0 [] raw) = filter (\<lambda>b. b \<noteq> 0 \<and> b \<noteq> 8) raw"
  by (simp add: bytes_replace1_empty conj_commute)

lemma py_strip_nonempty: "(py_strip l \<noteq> []) = (\<not> list_all py_isspace l)"
proof (cases "dropWhile py_isspace l = []")
  case True
  then have "list_all py_isspace l"
    by (simp add: list_all_iff)
  moreover have "py_strip l = []"
    unfolding py_strip_def True by simp
  ultimately show ?thesis
    by simp
next
  case False
  then have "\<not> py_isspace (hd (dropWhile py_isspace l))"
    by (rule hd_dropWhile)
  moreover have "hd (dropWhile py_isspace l) \<in> set (rev (dropWhile py_isspace l))"
    using False by simp
  ultimately have "dropWhile py_isspace (rev (dropWhile py_isspace l)) \<noteq> []"
    by (metis dropWhile_eq_Nil_conv)
  moreover have "\<not> list_all py_isspace l"
    using False by (simp add: list_all_iff)
  ultimately show ?thesis
    by (simp add: py_strip_def)
qed

lemma split_on_nonempty: "split_on s t \<noteq> []"
  by (induction t) simp_all

lemma split_on_append:
  "s \<notin> set cur \<Longrightarrow> split_on s (cur @ t) = (cur @ hd (split_on s t)) # tl (split_on s t)"
  by (induction cur) (simp_all add: split_on_nonempty)

lemma strip_cr_id: "13 \<notin> set l \<Longrightarrow> strip_cr l = l"
  unfolding strip_cr_def by (metis last_in_set)

lemma strip_cr_snoc: "strip_cr (l @ [13]) = l"
  by (simp add: strip_cr_def)

lemma linebreak_10: "is_linebreak 10" and linebreak_13: "is_linebreak 13"
  by (simp_all add: is_linebreak_def)

lemma splitlines_from_spec:
  "lf_crlf_only t \<Longrightarrow> 10 \<notin> set cur \<Longrightarrow> 13 \<notin> set cur \<Longrightarrow>
   filter (\<lambda>l. \<not> list_all py_isspace l) (splitlines_from cur t) =
   filter (\<lambda>l. \<not> list_all py_isspace l) (map strip_cr (split_on 10 (cur @ t)))"
proof (induction cur t rule: splitlines_from.induct)
  case (1 cur)
  then show ?case
    using split_on_append [of 10 cur "[]"] by (simp add: strip_cr_id)
next
  case (2 cur c cs)
  show ?case
  proof (cases "c = 13")
    case True
    with "2.prems" obtain r where cs: "cs = 10 # r" and r: "lf_crlf_only r"
      by (auto split: list.splits simp: linebreak_10)
    have ih: "filter (\<lambda>l. \<not> list_all py_isspace l) (splitlines_from [] r) =
        filter (\<lambda>l. \<not> list_all py_isspace l) (map strip_cr (split_on 10 ([] @ r)))"
      using "2.IH"(1) [OF True cs _ r] by simp
    have "split_on 10 (cur @ c # cs) = (cur @ [13]) # split_on 10 r"
      using "2.prems"(2) split_on_append [of 10 "cur @ [13]" "10 # r"] True cs
      by (simp add: split_on_nonempty)
    then show ?thesis
      using ih True cs by (simp add: strip_cr_snoc)
  next
    case False
    show ?thesis
    proof (cases "is_linebreak c")
      case True
      with False "2.prems" have c10: "c = 10" and cs: "lf_crlf_only cs"
        by auto
      have ih: "filter (\<lambda>l. \<not> list_all py_isspace l) (splitlines_from [] cs) =
        filter (\<lambda>l. \<not> list_all py_isspace l) (map strip_cr (split_on 10 ([] @ cs)))"
        using "2.IH"(3) [OF False True cs] by simp
      have "split_on 10 (cur @ c # cs) = cur # split_on 10 cs"
        using "2.prems"(2) split_on_append [of 10 cur "10 # cs"] c10
        by (simp add: split_on_nonempty)
      then show ?thesis
        using ih False True "2.prems"(3) by (simp add: strip_cr_id)
    next
      case nb: False
      with False "2.prems" have cs: "lf_crlf_only cs"
        by auto
      have c10: "c \<noteq> 10"
        using nb linebreak_10 by auto
      have "filter (\<lambda>l. \<not> list_all py_isspace l) (splitlines_from (cur @ [c]) cs) =
        filter (\<lambda>l. \<not> list_all py_isspace l) (map strip_cr (split_on 10 ((cur @ [c]) @ cs)))"
        using "2.IH"(4) [OF False nb cs] "2.prems"(2,3) False c10 by simp
      then show ?thesis
        using False nb by simp
    qed
  qed
qed


lemma splitlines_from_no_break:
  "l \<in> set (splitlines_from cur t) \<Longrightarrow> list_all (\<lambda>c. \<not> is_linebreak c) cur \<Longrightarrow>
   list_all (\<lambda>c. \<not> is_linebreak c) l"
proof (induction cur t arbitrary: l rule: splitlines_from.induct)
  case (1 cur)
  then show ?case by (simp split: if_splits)
next
  case (2 cur c cs)
  show ?case
  proof (cases "c = 13")
    case True
    show ?thesis
    proof (cases cs)
      case Nil
      with True "2.prems" show ?thesis by simp
    next
      case (Cons d r)
      show ?thesis
      proof (cases "d = 10")
        case d: True
        with True Cons "2.prems" have "l = cur \<or> l \<in> set (splitlines_from [] r)" by simp
        then show ?thesis
          using "2.IH"(1) [OF True Cons d] "2.prems"(2) by auto
      next
        case d: False
        with True Cons "2.prems" have "l = cur \<or> l \<in> set (splitlines_from [] (d # r))" by simp
        then show ?thesis
          using "2.IH"(2) [OF True Cons d] "2.prems"(2) by auto
      qed
    qed
  next
    case False
    show ?thesis
    proof (cases "is_linebreak c")
      case True
      with False "2.prems" have "l = cur \<or> l \<in> set (splitlines_from [] cs)" by simp
      then show ?thesis
        using "2.IH"(3) [OF False True] "2.prems"(2) by auto
    next
      case nb: False
      with False "2.prems" have "l \<in> set (splitlines_from (cur @ [c]) cs)" by simp
      then show ?thesis
        using "2.IH"(4) [OF False nb] "2.prems"(2) nb by simp
    qed
  qed
qed

lemma splitlines_from_concat:
  "concat (splitlines_from cur t) = cur @ filter (\<lambda>c. \<not> is_linebreak c) t"
proof (induction cur t rule: splitlines_from.induct)
  case (1 cur)
  then show ?case by simp
next
  case (2 cur c cs)
  show ?case
  proof (cases "c = 13")
    case True
    show ?thesis
    proof (cases cs)
      case Nil
      with True show ?thesis by (simp add: linebreak_13)
    next
      case (Cons d r)
      show ?thesis
      proof (cases "d = 10")
        case d: True
        then show ?thesis
          using "2.IH"(1) [OF True Cons d] True Cons
          by (simp add: linebreak_13 linebreak_10)
      next
        case d: False
        then show ?thesis
          using "2.IH"(2) [OF True Cons d] True Cons
          by (simp add: linebreak_13)
      qed
    qed
  next
    case False
    show ?thesis
    proof (cases "is_linebreak c")
      case True
      then show ?thesis
        using "2.IH"(3) [OF False True] False by simp
    next
      case nb: False
      then show ?thesis
        using "2.IH"(4) [OF False nb] False by simp
    qed
  qed
qed

text \<open>
  Claim C1. The docstring of \<^verbatim>\<open>decrypt\<close> (lines 78 and 79) and the comment of line 90
  say that the text is split on CRLF, and the claim says on CRLF or LF. The code calls
  \<^verbatim>\<open>text.splitlines()\<close>, which also splits at a CR that no LF follows. On the buffer
  \<^verbatim>\<open>a\rb\<close> followed by thirteen padding bytes 0x00 (one cipher block) the code returns
  the two lines \<^verbatim>\<open>a\<close> and \<^verbatim>\<open>b\<close>, where a split on CRLF or LF returns the one line
  \<^verbatim>\<open>a\rb\<close>.
\<close>

theorem decode_lines_splits_lone_cr:
  "decode_lines ([0x61, 0x0D, 0x62] @ replicate 13 0) = Inr [[97], [98]]
   \<and> spec_decode_lines ([0x61, 0x0D, 0x62] @ replicate 13 0) = Inr [[97, 13, 98]]"
proof -
  have code: "decode_lines ([0x61, 0x0D, 0x62] @ replicate 13 0) = Inr [[97], [98]]"
    by (simp add: decode_lines_def bytes_replace1_def utf8_decode_def splitlines_def
        is_linebreak_def py_strip_def py_isspace_def)
  have spec: "spec_decode_lines ([0x61, 0x0D, 0x62] @ replicate 13 0) = Inr [[97, 13, 98]]"
    by (simp add: spec_decode_lines_def utf8_decode_def spec_split_lines_def strip_cr_def
        py_isspace_def)
  from code spec show ?thesis by (intro conjI)
qed

text \<open>
  The rest of the post-processing is as claim C1 says: every byte 0x00 and 0x08 is
  removed wherever it stands, the rest is decoded as UTF-8 (a \<^verbatim>\<open>ValueError\<close> when that
  fails), the lines that are empty or whitespace only are dropped and the order is kept.
  The lines are those of \<^verbatim>\<open>str.splitlines\<close>, and on every text whose only line
  boundaries are LF and CRLF the result is the one of the split on CRLF or LF.
\<close>

lemma decode_lines_splitlines:
  "decode_lines raw =
     (case utf8_decode (filter (\<lambda>b. b \<noteq> 0 \<and> b \<noteq> 8) raw) of
        None \<Rightarrow> Inl (ValueError ''Failed to decode decrypted data to UTF-8'')
      | Some t \<Rightarrow> Inr (filter (\<lambda>l. \<not> list_all py_isspace l) (splitlines t)))
   \<and> (\<forall>t. list_all (list_all (\<lambda>c. \<not> is_linebreak c)) (splitlines t)
          \<and> concat (splitlines t) = filter (\<lambda>c. \<not> is_linebreak c) t)
   \<and> (\<forall>t. utf8_decode (filter (\<lambda>b. b \<noteq> 0 \<and> b \<noteq> 8) raw) = Some t \<and> lf_crlf_only t
          \<longrightarrow> decode_lines raw = spec_decode_lines raw)"
proof (intro conjI allI impI)
  show code: "decode_lines raw =
     (case utf8_decode (filter (\<lambda>b. b \<noteq> 0 \<and> b \<noteq> 8) raw) of
        None \<Rightarrow> Inl (ValueError ''Failed to decode decrypted data to UTF-8'')
      | Some t \<Rightarrow> Inr (filter (\<lambda>l. \<not> list_all py_isspace l) (splitlines t)))"
    by (simp add: decode_lines_def cleaned_filter py_strip_nonempty split: option.splits)
  show "list_all (list_all (\<lambda>c. \<not> is_linebreak c)) (splitlines t)" for t
    using splitlines_from_no_break [of _ "[]" t]
    by (auto simp: splitlines_def list_all_iff)
  show "concat (splitlines t) = filter (\<lambda>c. \<not> is_linebreak c) t" for t
    by (simp add: splitlines_def splitlines_from_concat)
  show "decode_lines raw = spec_decode_lines raw"
    if "utf8_decode (filter (\<lambda>b. b \<noteq> 0 \<and> b \<noteq> 8) raw) = Some t \<and> lf_crlf_only t" for t
    using that splitlines_from_spec [of t "[]"]
    by (simp add: code spec_decode_lines_def splitlines_def spec_split_lines_def)
qed

lemma decode_lines_splitlines_example:
  "utf8_decode (filter (\<lambda>b. b \<noteq> 0 \<and> b \<noteq> 8)
      [0x61, 0x62, 0, 0x0D, 0x0A, 8, 0x20, 0x0A, 0x63, 0xC3, 0xA9])
     = Some [97, 98, 13, 10, 32, 10, 99, 233]
   \<and> lf_crlf_only [97, 98, 13, 10, 32, 10, 99, 233]
   \<and> decode_lines [0x61, 0x62, 0, 0x0D, 0x0A, 8, 0x20, 0x0A, 0x63, 0xC3, 0xA9]
       = spec_decode_lines [0x61, 0x62, 0, 0x0D, 0x0A, 8, 0x20, 0x0A, 0x63, 0xC3, 0xA9]
   \<and> decode_lines [0x61, 0x62, 0, 0x0D, 0x0A, 8, 0x20, 0x0A, 0x63, 0xC3, 0xA9]
       = Inr [[97, 98], [99, 233]]"
proof -
  have dec: "utf8_decode (filter (\<lambda>b. b \<noteq> 0 \<and> b \<noteq> 8)
      [0x61, 0x62, 0, 0x0D, 0x0A, 8, 0x20, 0x0A, 0x63, 0xC3, 0xA9])
     = Some [97, 98, 13, 10, 32, 10, 99, 233]"
    by (simp add: utf8_decode_def utf8_cont_def)
  have lf: "lf_crlf_only [97, 98, 13, 10, 32, 10, 99, 233]"
    by (simp add: is_linebreak_def)
  have res: "decode_lines [0x61, 0x62, 0, 0x0D, 0x0A, 8, 0x20, 0x0A, 0x63, 0xC3, 0xA9]
       = Inr [[97, 98], [99, 233]]"
    by (simp add: decode_lines_def bytes_replace1_def utf8_decode_def utf8_cont_def
        splitlines_def is_linebreak_def py_strip_def py_isspace_def)
  have eq: "decode_lines [0x61, 0x62, 0, 0x0D, 0x0A, 8, 0x20, 0x0A, 0x63, 0xC3, 0xA9]
       = spec_decode_lines [0x61, 0x62, 0, 0x0D, 0x0A, 8, 0x20, 0x0A, 0x63, 0xC3, 0xA9]"
    using decode_lines_splitlines
      [of "[0x61, 0x62, 0, 0x0D, 0x0A, 8, 0x20, 0x0A, 0x63, 0xC3, 0xA9]"] dec lf
    by blast
  from dec lf eq res show ?thesis
    by (intro conjI)
qed

text \<open>
  Claim C5. On every string of at most 16 characters the transform fails: lines 44 and 45
  raise the \<^verbatim>\<open>ValueError\<close> about the length of \<^verbatim>\<open>jk\<close> and no transformed key is
  produced; the constructor \<^verbatim>\<open>CNL.__init__\<close>, which holds the transform, fails on every
  item with such a key (with the \<^verbatim>\<open>KeyError\<close> of line 40 when the key or the payload is
  empty, with this \<^verbatim>\<open>ValueError\<close> otherwise).
\<close>

theorem key_transform_short_fails:
  "length x \<le> 16 \<Longrightarrow>
   key_transform x = Inl (ValueError ''Invalid jk string length; must be > 16 characters.'')
   \<and> (\<forall>item. jk (get_cnl item) = Some x \<longrightarrow> isl (CNL_init item))"
proof -
  assume len: "length x \<le> 16"
  have kt: "key_transform x
      = Inl (ValueError ''Invalid jk string length; must be > 16 characters.'')"
    using len by (simp add: key_transform_def)
  have "isl (CNL_init item)" if "jk (get_cnl item) = Some x" for item
    using that kt by (simp add: CNL_init_def Let_def)
  with kt show ?thesis by blast
qed

theorem key_transform_short_fails_witness:
  "length [48, 49, 50 :: nat] \<le> 16
   \<and> key_transform [48, 49, 50]
       = Inl (ValueError ''Invalid jk string length; must be > 16 characters.'')
   \<and> isl (CNL_init \<lparr>hoster = None,
                     cnl = Some \<lparr>jk = Some [48, 49, 50], crypted = Some [65]\<rparr>\<rparr>)"
  using key_transform_short_fails [of "[48, 49, 50]"]
  by (simp add: get_cnl_def)

section \<open>Properties of BatchDecryptor\<close>

lemma py_in_iff: "py_in sub s = (\<exists>pre post. s = pre @ sub @ post)"
proof (induction s)
  case Nil
  then show ?case by auto
next
  case (Cons c cs)
  show ?case
  proof
    assume "py_in sub (c # cs)"
    then consider "take (length sub) (c # cs) = sub" | "py_in sub cs" by auto
    then show "\<exists>pre post. c # cs = pre @ sub @ post"
    proof cases
      case 1
      then have "c # cs = [] @ sub @ drop (length sub) (c # cs)"
        by (metis append_Nil append_take_drop_id)
      then show ?thesis by blast
    next
      case 2
      with Cons obtain pre post where "cs = pre @ sub @ post" by blast
      then have "c # cs = (c # pre) @ sub @ post" by simp
      then show ?thesis by blast
    qed
  next
    assume "\<exists>pre post. c # cs = pre @ sub @ post"
    then obtain pre post where eq: "c # cs = pre @ sub @ post" by blast
    show "py_in sub (c # cs)"
    proof (cases pre)
      case Nil
      with eq have "take (length sub) (c # cs) = sub" by simp
      then show ?thesis by simp
    next
      case (Cons p pre')
      with eq have "cs = pre' @ sub @ post" by simp
      with Cons.IH have "py_in sub cs" by blast
      then show ?thesis by simp
    qed
  qed
qed


text \<open>
  Claim C6, as stated, fails on the code at one input: the empty string is a filter that
  is provided, and on an empty item list it matches zero items, yet \<^verbatim>\<open>if mirror\<close> reads
  it as no filter and no fallback diagnostic is logged.
\<close>

theorem select_items_counterexample:
  "truthy (Some []) = False
   \<and> filter (\<lambda>item. py_in [] (hoster_or_empty item)) [] = []
   \<and> select_items [] (Some []) = ([], [])
   \<and> (\<forall>lib. decrypt_content lib [] (Some []) = ([], []))"
  by (simp add: select_items_def decrypt_content_def)

text \<open>
  Claim C6, amended. When the mirror filter is a non-empty string, exactly the items
  whose hoster label (the empty string when absent) contains it as a substring of equal
  code points are kept; when none matches, all items are processed and the fallback
  diagnostic is logged. When the filter is absent or the empty string, all items are
  processed and no fallback diagnostic is logged. The loop runs over the list so chosen.
\<close>

theorem select_items_policy:
  "(m \<noteq> [] \<longrightarrow>
      select_items items (Some m) =
        (let kept = filter (\<lambda>item. \<exists>pre post. hoster_or_empty item = pre @ m @ post) items
         in if kept = [] then (items, [Info_fallback m]) else (kept, [])))
   \<and> select_items items (Some []) = (items, [])
   \<and> select_items items None = (items, [])
   \<and> decrypt_content lib items mirror =
       decrypt_loop lib 0 (fst (select_items items mirror)) [] (snd (select_items items mirror))"
  by (simp add: select_items_def decrypt_content_def py_in_iff Let_def split: prod.splits)

theorem select_items_policy_witness:
  "[88] \<noteq> ([] :: ustr)
   \<and> select_items [\<lparr>hoster = Some [88], cnl = None\<rparr>, \<lparr>hoster = Some [89], cnl = None\<rparr>]
        (Some [88]) = ([\<lparr>hoster = Some [88], cnl = None\<rparr>], [])
   \<and> select_items [\<lparr>hoster = Some [88], cnl = None\<rparr>, \<lparr>hoster = Some [89], cnl = None\<rparr>]
        (Some [90])
       = ([\<lparr>hoster = Some [88], cnl = None\<rparr>, \<lparr>hoster = Some [89], cnl = None\<rparr>],
          [Info_fallback [90]])"
proof -
  have k1: "filter (\<lambda>item. \<exists>pre post. hoster_or_empty item = pre @ [88] @ post)
      [\<lparr>hoster = Some [88], cnl = None\<rparr>, \<lparr>hoster = Some [89], cnl = None\<rparr>]
      = [\<lparr>hoster = Some [88], cnl = None\<rparr>]"
    unfolding py_in_iff [symmetric] by (simp add: hoster_or_empty_def)
  have k2: "filter (\<lambda>item. \<exists>pre post. hoster_or_empty item = pre @ [90] @ post)
      [\<lparr>hoster = Some [88], cnl = None\<rparr>, \<lparr>hoster = Some [89], cnl = None\<rparr>]
      = []"
    unfolding py_in_iff [symmetric] by (simp add: hoster_or_empty_def)
  have n1: "[88] \<noteq> ([] :: ustr)" and n2: "[90] \<noteq> ([] :: ustr)" by simp_all
  have a: "select_items [\<lparr>hoster = Some [88], cnl = None\<rparr>, \<lparr>hoster = Some [89], cnl = None\<rparr>]
        (Some [88]) = ([\<lparr>hoster = Some [88], cnl = None\<rparr>], [])"
    using select_items_policy
      [of "[88]" "[\<lparr>hoster = Some [88], cnl = None\<rparr>, \<lparr>hoster = Some [89], cnl = None\<rparr>]"]
      n1 unfolding k1 Let_def by simp
  have b: "select_items [\<lparr>hoster = Some [88], cnl = None\<rparr>, \<lparr>hoster = Some [89], cnl = None\<rparr>]
        (Some [90])
       = ([\<lparr>hoster = Some [88], cnl = None\<rparr>, \<lparr>hoster = Some [89], cnl = None\<rparr>],
          [Info_fallback [90]])"
    using select_items_policy
      [of "[90]" "[\<lparr>hoster = Some [88], cnl = None\<rparr>, \<lparr>hoster = Some [89], cnl = None\<rparr>]"]
      n2 unfolding k2 Let_def by simp
  from n1 a b show ?thesis by (intro conjI)
qed









section \<open>Properties of ImageDifferenceEngine\<close>

lemma chop_abs_commute: "chop_abs a b = chop_abs b a"
  by (auto simp: chop_abs_def)

lemma chop_rgb_commute: "chop_rgb p q = chop_rgb q p"
  by (cases p, cases q) (simp add: chop_rgb_def chop_abs_commute)

lemma ImageChops_difference_commute:
  "ImageChops_difference a b = ImageChops_difference b a"
  by (simp add: ImageChops_difference_def min.commute chop_rgb_commute)

lemma length_pixels: "length (pixels im) = xsize im * ysize im"
  by (simp add: pixels_def length_concat comp_def sum_list_triv)

lemma histogram_zero_counts:
  "histogram im ! 0 = length (filter (\<lambda>p. chan_R p = 0) (pixels im))"
  "histogram im ! 256 = length (filter (\<lambda>p. chan_G p = 0) (pixels im))"
  "histogram im ! 512 = length (filter (\<lambda>p. chan_B p = 0) (pixels im))"
  by (simp_all add: histogram_def nth_append)

lemma zero_counts_le:
  "int (histogram im ! 0) + int (histogram im ! 256) + int (histogram im ! 512)
     \<le> int (xsize im) * int (ysize im) * 3"
proof -
  have "length (filter P (pixels im)) \<le> xsize im * ysize im" for P
    using length_filter_le [of P "pixels im"] by (simp add: length_pixels)
  then have "histogram im ! 0 \<le> xsize im * ysize im"
    and "histogram im ! 256 \<le> xsize im * ysize im"
    and "histogram im ! 512 \<le> xsize im * ysize im"
    by (simp_all add: histogram_zero_counts)
  then have "histogram im ! 0 + histogram im ! 256 + histogram im ! 512
      \<le> xsize im * ysize im * 3"
    by linarith
  then have "int (histogram im ! 0 + histogram im ! 256 + histogram im ! 512)
      \<le> int (xsize im * ysize im * 3)"
    by (rule iffD2 [OF of_nat_le_iff])
  then show ?thesis by simp
qed

text \<open>
  Claim C7. The difference percentage is symmetric: for two normalised images of the
  same width and height, \<^verbatim>\<open>calculate_pixel_based_difference(a, b)\<close> and
  \<^verbatim>\<open>calculate_pixel_based_difference(b, a)\<close> return the same value or raise the same
  error, whatever the division does. The function reads its two arguments only: the
  embedding is a function of them and threads no state.
\<close>

theorem difference_symmetric:
  "xsize a = xsize b \<Longrightarrow> ysize a = ysize b \<Longrightarrow>
   calculate_pixel_based_difference tdiv a b = calculate_pixel_based_difference tdiv b a"
  by (simp add: calculate_pixel_based_difference_def ImageChops_difference_commute [of a b])

lemma pixels_single: "xsize im = 1 \<Longrightarrow> ysize im = 1 \<Longrightarrow> pixels im = [getpixel im 0 0]"
  by (simp add: pixels_def)

theorem difference_symmetric_witness:
  "xsize \<lparr>xsize = 1, ysize = 1, getpixel = (\<lambda>x y. (10, 20, 30))\<rparr>
     = xsize \<lparr>xsize = 1, ysize = 1, getpixel = (\<lambda>x y. (10, 25, 28))\<rparr>
   \<and> ysize \<lparr>xsize = 1, ysize = 1, getpixel = (\<lambda>x y. (10, 20, 30))\<rparr>
     = ysize \<lparr>xsize = 1, ysize = 1, getpixel = (\<lambda>x y. (10, 25, 28))\<rparr>
   \<and> calculate_pixel_based_difference exact_div
        \<lparr>xsize = 1, ysize = 1, getpixel = (\<lambda>x y. (10, 20, 30))\<rparr>
        \<lparr>xsize = 1, ysize = 1, getpixel = (\<lambda>x y. (10, 25, 28))\<rparr>
     = calculate_pixel_based_difference exact_div
        \<lparr>xsize = 1, ysize = 1, getpixel = (\<lambda>x y. (10, 25, 28))\<rparr>
        \<lparr>xsize = 1, ysize = 1, getpixel = (\<lambda>x y. (10, 20, 30))\<rparr>
   \<and> calculate_pixel_based_difference exact_div
        \<lparr>xsize = 1, ysize = 1, getpixel = (\<lambda>x y. (10, 20, 30))\<rparr>
        \<lparr>xsize = 1, ysize = 1, getpixel = (\<lambda>x y. (10, 25, 28))\<rparr>
     = Inr (200 / 3)"
proof -
  have v: "calculate_pixel_based_difference exact_div
        \<lparr>xsize = 1, ysize = 1, getpixel = (\<lambda>x y. (10, 20, 30))\<rparr>
        \<lparr>xsize = 1, ysize = 1, getpixel = (\<lambda>x y. (10, 25, 28))\<rparr>
     = Inr (200 / 3)"
    by (simp add: calculate_pixel_based_difference_def ImageChops_difference_def
        Let_def histogram_zero_counts pixels_single chop_rgb_def chop_abs_def chan_R_def
        chan_G_def chan_B_def exact_div_def)
  show ?thesis
    using difference_symmetric
      [of "\<lparr>xsize = 1, ysize = 1, getpixel = (\<lambda>x y. (10, 20, 30))\<rparr>"
          "\<lparr>xsize = 1, ysize = 1, getpixel = (\<lambda>x y. (10, 25, 28))\<rparr>" exact_div] v
    by simp
qed

text \<open>
  Claim C10. The division by width, height and 3 has no guard. For two images with at
  least one pixel each the difference image has at least one pixel, the division is
  defined and the exact quotient lies between 0 and 100 (and so does the double nearest
  to it, 0 and 100 being doubles). When one of the images has no pixel, the divisor is
  0 and the computation raises \<^verbatim>\<open>ZeroDivisionError\<close> instead of returning a value.
\<close>

theorem difference_bounds:
  "(0 < xsize a \<and> 0 < ysize a \<and> 0 < xsize b \<and> 0 < ysize b \<longrightarrow>
      (\<exists>q. calculate_pixel_based_difference exact_div a b = Inr q \<and> 0 \<le> q \<and> q \<le> 100))
   \<and> (xsize a = 0 \<or> ysize a = 0 \<or> xsize b = 0 \<or> ysize b = 0 \<longrightarrow>
      calculate_pixel_based_difference tdiv a b = Inl (ZeroDivisionError ''division by zero''))"
proof (intro conjI impI)
  assume pos: "0 < xsize a \<and> 0 < ysize a \<and> 0 < xsize b \<and> 0 < ysize b"
  define d where "d = ImageChops_difference a b"
  define total where "total = int (xsize d) * int (ysize d) * 3"
  define zeros where
    "zeros = int (histogram d ! 0) + int (histogram d ! 256) + int (histogram d ! 512)"
  have tp: "0 < total"
    using pos by (simp add: total_def d_def ImageChops_difference_def)
  have z0: "0 \<le> zeros" by (simp add: zeros_def)
  have zt: "zeros \<le> total"
    unfolding zeros_def total_def by (rule zero_counts_le)
  have r: "calculate_pixel_based_difference exact_div a b
      = Inr (exact_div ((total - zeros) * 100) total)"
    unfolding calculate_pixel_based_difference_def Let_def d_def [symmetric]
      total_def [symmetric] zeros_def [symmetric]
    using tp by simp
  have lo: "0 \<le> exact_div ((total - zeros) * 100) total"
    using tp zt by (simp add: exact_div_def)
  have "rat_of_int ((total - zeros) * 100) \<le> rat_of_int (100 * total)"
    using z0 by (intro iffD2 [OF of_int_le_iff]) simp
  then have hi: "exact_div ((total - zeros) * 100) total \<le> 100"
    using tp by (simp add: exact_div_def divide_le_eq)
  from r lo hi
  show "\<exists>q. calculate_pixel_based_difference exact_div a b = Inr q \<and> 0 \<le> q \<and> q \<le> 100"
    by blast
next
  assume "xsize a = 0 \<or> ysize a = 0 \<or> xsize b = 0 \<or> ysize b = 0"
  then have "xsize (ImageChops_difference a b) = 0 \<or> ysize (ImageChops_difference a b) = 0"
    by (auto simp: ImageChops_difference_def)
  then show "calculate_pixel_based_difference tdiv a b
      = Inl (ZeroDivisionError ''division by zero'')"
    by (auto simp: calculate_pixel_based_difference_def Let_def)
qed

theorem difference_bounds_witness:
  "0 < xsize \<lparr>xsize = 1, ysize = 1, getpixel = (\<lambda>x y. (10, 20, 30))\<rparr>
   \<and> 0 < ysize \<lparr>xsize = 1, ysize = 1, getpixel = (\<lambda>x y. (10, 20, 30))\<rparr>
   \<and> (\<exists>q. calculate_pixel_based_difference exact_div
          \<lparr>xsize = 1, ysize = 1, getpixel = (\<lambda>x y. (10, 20, 30))\<rparr>
          \<lparr>xsize = 1, ysize = 1, getpixel = (\<lambda>x y. (10, 25, 28))\<rparr> = Inr q
        \<and> 0 \<le> q \<and> q \<le> 100)
   \<and> xsize \<lparr>xsize = 0, ysize = 4, getpixel = (\<lambda>x y. (0, 0, 0))\<rparr> = 0
   \<and> calculate_pixel_based_difference exact_div
        \<lparr>xsize = 0, ysize = 4, getpixel = (\<lambda>x y. (0, 0, 0))\<rparr>
        \<lparr>xsize = 1, ysize = 1, getpixel = (\<lambda>x y. (10, 20, 30))\<rparr>
       = Inl (ZeroDivisionError ''division by zero'')"
  using difference_bounds
      [of "\<lparr>xsize = 1, ysize = 1, getpixel = (\<lambda>x y. (10, 20, 30))\<rparr>"
          "\<lparr>xsize = 1, ysize = 1, getpixel = (\<lambda>x y. (10, 25, 28))\<rparr>" exact_div]
    difference_bounds
      [of "\<lparr>xsize = 0, ysize = 4, getpixel = (\<lambda>x y. (0, 0, 0))\<rparr>"
          "\<lparr>xsize = 1, ysize = 1, getpixel = (\<lambda>x y. (10, 20, 30))\<rparr>" exact_div]
  by simp

section \<open>Properties of OutlierSelector\<close>














section \<open>Properties of CaptchaResolver\<close>

lemma fetch_images_append:
  "fetch_images env base (pre @ rest) acc w =
   (case fetch_images env base pre acc w of
      (Inl e, w') \<Rightarrow> (Inl e, w')
    | (Inr imgs, w') \<Rightarrow> fetch_images env base rest imgs w')"
proof (induction pre arbitrary: acc w)
  case Nil
  then show ?case by simp
next
  case (Cons c pre)
  show ?case
    by (cases "fetch_via_requests_session env (Get_image base c) w")
       (simp add: Cons.IH split: sum.splits)
qed

lemma fetch_images_ok:
  "fetch_images env base cs acc w = (Inr imgs, w') \<Longrightarrow>
   map fst imgs = map fst acc @ cs
   \<and> w' = foldl (\<lambda>w c. snd (fetch_via_requests_session env (Get_image base c) w)) w cs"
proof (induction cs arbitrary: acc w)
  case Nil
  then show ?case by simp
next
  case (Cons c cs)
  obtain res w1 where f: "fetch_via_requests_session env (Get_image base c) w = (res, w1)"
    by (cases "fetch_via_requests_session env (Get_image base c) w")
  from Cons.prems f obtain r where r: "res = Inr r" "status_code r = 200" "content r \<noteq> []"
    and rest: "fetch_images env base cs (acc @ [(c, content r)]) w1 = (Inr imgs, w')"
    by (cases res) (auto split: if_splits)
  from Cons.IH [OF rest] f show ?case by simp
qed

text \<open>
  Claim C8. The images are fetched one at a time in candidate order, and the first
  candidate whose fetch returns a status other than 200 (every non-success status is
  one) or an empty body ends the resolution: when the candidates before \<open>c\<close> were
  fetched (in their order, from the world the challenge left) and the fetch of \<open>c\<close>
  returns such a response, \<^verbatim>\<open>solve_captcha\<close> raises the \<^verbatim>\<open>RuntimeError\<close> for \<open>c\<close> and the
  world is the one that fetch left: no candidate after \<open>c\<close> is fetched, nothing is
  normalised, compared or submitted.
\<close>

theorem fetch_failure_is_fatal:
  assumes challenge:
      "fetch_via_flaresolverr env
         (Post_challenge (captcha_base_of (hostnames env w0 hostname))) w0 = (Inr result, w1)"
    and ids: "result_json result = Inr (JList (pre @ c # post))"
    and two: "2 \<le> length (pre @ c # post)"
    and before:
      "fetch_images env (captcha_base_of (hostnames env w0 hostname)) pre [] w1 = (Inr imgs, w2)"
    and fetch:
      "fetch_via_requests_session env
         (Get_image (captcha_base_of (hostnames env w0 hostname)) c) w2 = (Inr r, w3)"
    and bad: "status_code r \<noteq> 200 \<or> content r = []"
  shows "solve_captcha env tdiv hostname w0 =
           (Inl (if status_code r \<noteq> 200
                 then RuntimeError ''Failed to download captcha image {c} (HTTP {status_code})''
                        [c, JNum (status_code r)]
                 else RuntimeError ''Captcha image {c} is empty or invalid.'' [c]), w3)
         \<and> map fst imgs = pre
         \<and> w2 = foldl (\<lambda>w c. snd (fetch_via_requests_session env
                     (Get_image (captcha_base_of (hostnames env w0 hostname)) c) w)) w1 pre"
proof -
  let ?base = "captcha_base_of (hostnames env w0 hostname)"
  let ?err = "if status_code r \<noteq> 200
       then RuntimeError ''Failed to download captcha image {c} (HTTP {status_code})''
              [c, JNum (status_code r)]
       else RuntimeError ''Captcha image {c} is empty or invalid.'' [c]"
  have one: "fetch_images env ?base (c # post) imgs w2 = (Inl ?err, w3)"
    using bad by (simp add: fetch)
  have all: "fetch_images env ?base (pre @ c # post) [] w1 = (Inl ?err, w3)"
    by (simp add: fetch_images_append before one del: fetch_images.simps)
  have sel: "select_captcha env tdiv hostname w0 = (Inl ?err, w3)"
    using two unfolding select_captcha_def Let_def challenge
    by (auto simp: ids all)
  have "solve_captcha env tdiv hostname w0 = (Inl ?err, w3)"
    by (simp add: solve_captcha_def sel)
  with fetch_images_ok [OF before] show ?thesis by simp
qed

theorem fetch_failure_is_fatal_witness:
  "solve_captcha
     (example_env (\<lambda>c. if c = JNum 2 then \<lparr>status_code = 404, content = [1]\<rparr>
                        else \<lparr>status_code = 200, content = [10, 20, 30]\<rparr>))
     exact_div [104] []
   = (Inl (RuntimeError ''Failed to download captcha image {c} (HTTP {status_code})''
             [JNum 2, JNum 404]),
      [Post_challenge (captcha_base_of (Some [97, 108])),
       Get_image (captcha_base_of (Some [97, 108])) (JNum 1),
       Get_image (captcha_base_of (Some [97, 108])) (JNum 2)])"
proof -
  let ?S = "\<lambda>c. if c = JNum 2 then \<lparr>status_code = 404, content = [1]\<rparr>
                        else \<lparr>status_code = 200, content = [10, 20, 30]\<rparr>"
  let ?E = "example_env ?S"
  let ?B = "captcha_base_of (Some [97, 108])"
  have host: "hostnames ?E [] [104] = Some [97, 108]"
    by (simp add: example_env_def)
  have h1: "fetch_via_flaresolverr ?E (Post_challenge (captcha_base_of (hostnames ?E [] [104]))) []
      = (Inr \<lparr>result_json = Inr (JList [JNum 1, JNum 2, JNum 3]), result_text = [79, 75]\<rparr>,
         [Post_challenge ?B])"
    by (simp add: example_env_def)
  have h2: "result_json
        \<lparr>result_json = Inr (JList [JNum 1, JNum 2, JNum 3]), result_text = [79, 75]\<rparr>
      = Inr (JList ([JNum 1] @ JNum 2 # [JNum 3]))"
    by simp
  have h3: "2 \<le> length ([JNum 1] @ JNum 2 # [JNum 3])" by simp
  have h4: "fetch_images ?E (captcha_base_of (hostnames ?E [] [104])) [JNum 1] []
        [Post_challenge ?B]
      = (Inr [(JNum 1, [10, 20, 30])], [Post_challenge ?B, Get_image ?B (JNum 1)])"
    by (simp add: example_env_def)
  have h5: "fetch_via_requests_session ?E
        (Get_image (captcha_base_of (hostnames ?E [] [104])) (JNum 2))
        [Post_challenge ?B, Get_image ?B (JNum 1)]
      = (Inr \<lparr>status_code = 404, content = [1]\<rparr>,
         [Post_challenge ?B, Get_image ?B (JNum 1), Get_image ?B (JNum 2)])"
    by (simp add: example_env_def)
  have h6: "status_code \<lparr>status_code = 404, content = [1]\<rparr> \<noteq> 200
      \<or> content \<lparr>status_code = 404, content = [1]\<rparr> = []"
    by simp
  show ?thesis
    using fetch_failure_is_fatal [OF h1 h2 h3 h4 h5 h6, of exact_div] by simp
qed







end
